theory Spec2Isabelle
  imports Main "HOL-Library.Sublist"
begin

section \<open>The synchronisation code of \<open>Updater/source/mc/minecraft.py\<close>\<close>

text \<open>
  The class \<open>MCManager\<close> keeps a local Minecraft installation in step with a server:
  \<open>sync_dir\<close> for the four directories, \<open>sync_file\<close> for the two single files. Both work
  on the file system (\<open>os\<close>, \<open>pathlib\<close>) and on the network (the module
  \<open>source.mc.remote\<close>). The model passes the world around explicitly: the disk, and the
  sequence of calls made to the operating system and to the remote module so far.
  Exceptions are values: every function returns \<open>Inl\<close> of the exception raised or \<open>Inr\<close>
  of its result, together with the world it leaves behind.
\<close>

subsection \<open>Python values and exceptions\<close>

type_synonym path = "string list"
type_synonym url = string

text \<open>
  The two kinds of object that the code uses as dictionary keys and compares with string
  literals: a \<open>str\<close>, and a module object (\<open>from source.mc import remote\<close> binds the
  global name \<open>remote\<close> to one).
\<close>

datatype pyobj = Str string | Module string

datatype error =
    ValueError string
  | KeyError string
  | TypeError string
  | FileNotFoundError path
  | NotADirectoryError path
  | IsADirectoryError path
  | PermissionError path
  | FileExistsError path

text \<open>
  \<open>k in d\<close> and \<open>k == s\<close> for a dictionary \<open>d\<close> with string keys and a string \<open>s\<close>. A module
  object hashes and compares by identity, so it is no key of such a dictionary and is
  equal to no string.
\<close>

fun py_in :: "pyobj \<Rightarrow> (string \<rightharpoonup> 'v) \<Rightarrow> bool" where
  "py_in (Str s) d = (d s \<noteq> None)"
| "py_in (Module m) d = False"

fun py_eq :: "pyobj \<Rightarrow> string \<Rightarrow> bool" where
  "py_eq (Str s) t = (s = t)"
| "py_eq (Module m) t = False"

subsection \<open>The file system and the calls made\<close>

text \<open>
  A path is the list of its components. The disk lists its entries in the order in which
  \<open>os.listdir\<close> enumerates them. A file has a content and may be locked (read-only, or
  open in another process): the operating system refuses to remove a locked file.
\<close>

datatype node = File string bool | Dir

type_synonym filesystem = "(path \<times> node) list"

type_synonym job = "url \<times> string"
type_synonym progress = "nat \<times> nat \<times> string \<times> bool"

datatype event =
    Mkdir path
  | Listdir path
  | Exists path
  | Remove path
  | GetFilenames url
  | GetFileDownloads url
  | GetFileDownload url
  | DownloadFiles "job list" path
  | Download job path

record world =
  disk :: filesystem
  trace :: "event list"

definition emit :: "event \<Rightarrow> world \<Rightarrow> world" where
  "emit e w = w\<lparr>trace := trace w @ [e]\<rparr>"

text \<open>The events a run added to the trace: those of \<open>w'\<close> after the ones of \<open>w\<close>.\<close>

definition new_events :: "world \<Rightarrow> world \<Rightarrow> event list" where
  "new_events w w' = drop (length (trace w)) (trace w')"

definition is_dir :: "filesystem \<Rightarrow> path \<Rightarrow> bool" where
  "is_dir d p = (p = [] \<or> map_of d p = Some Dir)"

text \<open>
  \<open>Path.mkdir(parents=True, exist_ok=True)\<close> and \<open>os.makedirs(p, exist_ok=True)\<close>: every
  missing directory on the way to \<open>p\<close> is created, \<open>p\<close> last; an existing directory is
  left as it is; a file in the way raises.
\<close>

fun ensure_dirs :: "path list \<Rightarrow> filesystem \<Rightarrow> error + filesystem" where
  "ensure_dirs [] d = Inr d"
| "ensure_dirs (p # ps) d =
     (case map_of d p of
        None \<Rightarrow> ensure_dirs ps (d @ [(p, Dir)])
      | Some Dir \<Rightarrow> ensure_dirs ps d
      | Some (File c l) \<Rightarrow>
          Inl (if ps = [] then FileExistsError p else NotADirectoryError p))"

definition makedirs :: "path \<Rightarrow> world \<Rightarrow> (error + unit) \<times> world" where
  "makedirs p w =
     (let w1 = emit (Mkdir p) w in
      case ensure_dirs (tl (prefixes p)) (disk w) of
        Inl e \<Rightarrow> (Inl e, w1)
      | Inr d \<Rightarrow> (Inr (), w1\<lparr>disk := d\<rparr>))"

text \<open>The names of the entries directly under the directory \<open>dir\<close>, in the disk's order.\<close>

definition dir_entries :: "filesystem \<Rightarrow> path \<Rightarrow> string list" where
  "dir_entries d dir = map last (filter (\<lambda>p. p \<noteq> [] \<and> butlast p = dir) (map fst d))"

text \<open>\<open>os.listdir(dir)\<close>.\<close>

definition os_listdir :: "path \<Rightarrow> world \<Rightarrow> (error + string list) \<times> world" where
  "os_listdir dir w =
     (let w1 = emit (Listdir dir) w in
      if is_dir (disk w) dir then (Inr (dir_entries (disk w) dir), w1)
      else if map_of (disk w) dir = None then (Inl (FileNotFoundError dir), w1)
      else (Inl (NotADirectoryError dir), w1))"

definition os_path_exists :: "path \<Rightarrow> world \<Rightarrow> bool \<times> world" where
  "os_path_exists p w = (p = [] \<or> map_of (disk w) p \<noteq> None, emit (Exists p) w)"

text \<open>\<open>os.remove(p)\<close> removes a file; it raises for a directory, a locked file or a
  missing path, and then leaves the disk as it was.\<close>

definition os_remove :: "path \<Rightarrow> world \<Rightarrow> (error + unit) \<times> world" where
  "os_remove p w =
     (let w1 = emit (Remove p) w in
      case map_of (disk w) p of
        None \<Rightarrow> (Inl (FileNotFoundError p), w1)
      | Some Dir \<Rightarrow> (Inl (IsADirectoryError p), w1)
      | Some (File c locked) \<Rightarrow>
          if locked then (Inl (PermissionError p), w1)
          else (Inr (), w1\<lparr>disk := filter (\<lambda>e. fst e \<noteq> p) (disk w)\<rparr>))"

subsection \<open>The remote module\<close>

text \<open>
  The module \<open>source.mc.remote\<close> is not among the sources. Its functions are parameters of
  the model, with the signatures that section 6 of the specification gives them:
  the three listing calls return \<open>None\<close> when the server has nothing to offer, \<open>download\<close>
  returns whether it succeeded, \<open>download_files\<close> produces the progress tuples. The two
  download functions may change the disk in any way. None of the five is taken to raise:
  a failure is a \<open>None\<close>, a \<open>False\<close> or an error flag in a progress tuple.
\<close>

record remote_module =
  get_filenames :: "url \<Rightarrow> string list option"
  get_file_downloads :: "url \<Rightarrow> job list option"
  get_file_download :: "url \<Rightarrow> job option"
  download :: "job \<Rightarrow> path \<Rightarrow> filesystem \<Rightarrow> bool \<times> filesystem"
  download_files :: "job list \<Rightarrow> path \<Rightarrow> filesystem \<Rightarrow> progress list \<times> filesystem"

subsection \<open>\<open>MCManager\<close>\<close>

text \<open>
  \<open>remote_config\<close> is what \<open>remote.get_config()\<close> returned: \<open>None\<close>, or a dictionary whose
  entry \<open>"urls"\<close> (when present) maps a name to a URL or to \<open>None\<close>. \<open>work_dir\<close> is
  \<open>context.work_dir\<close>.
\<close>

record config =
  urls :: "(string \<rightharpoonup> url option) option"

record MCManager =
  work_dir :: path
  remote_config :: "config option"

text \<open>The global name \<open>remote\<close> of \<open>minecraft.py\<close> (line 11).\<close>

definition remote :: pyobj where
  "remote = Module ''source.mc.remote''"

text \<open>
  \<open>_create_dir_path\<close> (lines 53 to 87). Lines 70 to 81 test the global \<open>remote\<close>, not the
  parameter \<open>remote_dir\<close>; line 84 reads the dictionary at \<open>remote_dir\<close>.
\<close>

definition create_dir_path ::
  "MCManager \<Rightarrow> string \<Rightarrow> world \<Rightarrow> (error + path \<times> url option) \<times> world" where
  "create_dir_path self remote_dir w =
     (case remote_config self of
        None \<Rightarrow> (Inl (ValueError ''Remote config is not set''), w)
      | Some cfg \<Rightarrow>
         (case urls cfg of
            None \<Rightarrow> (Inl (KeyError ''urls''), w)
          | Some us \<Rightarrow>
             if \<not> py_in remote us then (Inl (ValueError ''Invalid remote directory''), w)
             else
              (case (if py_eq remote ''config'' then Some (work_dir self @ [''config''])
                     else if py_eq remote ''mods'' then Some (work_dir self @ [''mods''])
                     else if py_eq remote ''resourcepacks''
                       then Some (work_dir self @ [''resourcepacks''])
                     else if py_eq remote ''shaderpacks''
                       then Some (work_dir self @ [''shaderpacks''])
                     else None) of
                 None \<Rightarrow> (Inl (ValueError ''Unknown valid remote directory''), w)
               | Some local_dir \<Rightarrow>
                  (case makedirs local_dir w of
                     (Inl e, w1) \<Rightarrow> (Inl e, w1)
                   | (Inr u, w1) \<Rightarrow>
                      (case us remote_dir of
                         None \<Rightarrow> (Inl (KeyError remote_dir), w1)
                       | Some remote_dir_url \<Rightarrow> (Inr (local_dir, remote_dir_url), w1))))))"

text \<open>
  The loop of lines 169 to 173 over the listing of the local directory: an entry whose
  name the server does not list is removed. \<open>os.remove\<close> is not guarded, so its exception
  ends the loop and the call.
\<close>

fun remove_invalid ::
  "string list \<Rightarrow> path \<Rightarrow> string list \<Rightarrow> world \<Rightarrow> (error + unit) \<times> world" where
  "remove_invalid server_mods local_dir [] w = (Inr (), w)"
| "remove_invalid server_mods local_dir (file # rest) w =
     (if file \<notin> set server_mods then
        (case os_remove (local_dir @ [file]) w of
           (Inl e, w1) \<Rightarrow> (Inl e, w1)
         | (Inr u, w1) \<Rightarrow> remove_invalid server_mods local_dir rest w1)
      else remove_invalid server_mods local_dir rest w)"

text \<open>
  Lines 165 to 173, the part of \<open>sync_dir\<close> under the comment \<open># Remove invalid mods\<close>:
  the server's file names are fetched, the local directory is listed, the loop runs.
\<close>

definition remove_invalid_mods ::
  "remote_module \<Rightarrow> path \<Rightarrow> url \<Rightarrow> world \<Rightarrow> (error + unit) \<times> world" where
  "remove_invalid_mods R local_dir remote_dir_url w =
     (let w1 = emit (GetFilenames remote_dir_url) w in
      case get_filenames R remote_dir_url of
        None \<Rightarrow> (Inl (ValueError ''Server filenames are not set''), w1)
      | Some server_mods \<Rightarrow>
         (case os_listdir local_dir w1 of
            (Inl e, w2) \<Rightarrow> (Inl e, w2)
          | (Inr listing, w2) \<Rightarrow> remove_invalid server_mods local_dir listing w2))"

text \<open>
  Lines 175 to 182, the part under the comment \<open># Download mods\<close>: the download list of
  the server goes to \<open>remote.download_files\<close> as it is, and every progress tuple is
  yielded. The generator is modelled run to its end: the result is the list of the
  tuples it yields.
\<close>

definition download_mods ::
  "remote_module \<Rightarrow> path \<Rightarrow> url \<Rightarrow> world \<Rightarrow> (error + progress list) \<times> world" where
  "download_mods R local_dir remote_dir_url w =
     (let w1 = emit (GetFileDownloads remote_dir_url) w in
      case get_file_downloads R remote_dir_url of
        None \<Rightarrow> (Inl (ValueError ''URLs to download are not set''), w1)
      | Some urls_to_download \<Rightarrow>
         (let w2 = emit (DownloadFiles urls_to_download local_dir) w1;
              (yielded, d) = download_files R urls_to_download local_dir (disk w2)
          in (Inr yielded, w2\<lparr>disk := d\<rparr>)))"

text \<open>
  Lines 162 to 182: what \<open>sync_dir\<close> does with the pair that \<open>_create_dir_path\<close> returned.
\<close>

definition sync_dir_resolved ::
  "remote_module \<Rightarrow> path \<Rightarrow> url option \<Rightarrow> world \<Rightarrow> (error + progress list) \<times> world" where
  "sync_dir_resolved R local_dir remote_dir_url w =
     (case remote_dir_url of
        None \<Rightarrow> (Inr [], w)
      | Some u \<Rightarrow>
         (case remove_invalid_mods R local_dir u w of
            (Inl e, w1) \<Rightarrow> (Inl e, w1)
          | (Inr x, w1) \<Rightarrow> download_mods R local_dir u w1))"

text \<open>\<open>sync_dir\<close> (lines 147 to 182).\<close>

definition sync_dir ::
  "remote_module \<Rightarrow> MCManager \<Rightarrow> string \<Rightarrow> world \<Rightarrow> (error + progress list) \<times> world" where
  "sync_dir R self remote_dir w =
     (case create_dir_path self remote_dir w of
        (Inl e, w1) \<Rightarrow> (Inl e, w1)
      | (Inr (local_dir, remote_dir_url), w1) \<Rightarrow>
          sync_dir_resolved R local_dir remote_dir_url w1)"

text \<open>
  \<open>_create_file_path\<close> (lines 89 to 117). It tests its parameter \<open>remote_file\<close>.
  \<open>os.path.dirname\<close> of the local file path is the working directory.
\<close>

definition create_file_path ::
  "MCManager \<Rightarrow> string \<Rightarrow> world \<Rightarrow> (error + path \<times> url option) \<times> world" where
  "create_file_path self remote_file w =
     (case remote_config self of
        None \<Rightarrow> (Inl (TypeError ''NoneType object is not subscriptable''), w)
      | Some cfg \<Rightarrow>
         (case urls cfg of
            None \<Rightarrow> (Inl (KeyError ''urls''), w)
          | Some us \<Rightarrow>
             if \<not> py_in (Str remote_file) us then (Inl (ValueError ''Invalid remote file''), w)
             else
              (case (if py_eq (Str remote_file) ''options''
                       then Some (work_dir self @ [''options.txt''])
                     else if py_eq (Str remote_file) ''servers''
                       then Some (work_dir self @ [''servers.dat''])
                     else None) of
                 None \<Rightarrow> (Inl (ValueError ''Unknown valid remote file''), w)
               | Some local_filepath \<Rightarrow>
                  (case makedirs (butlast local_filepath) w of
                     (Inl e, w1) \<Rightarrow> (Inl e, w1)
                   | (Inr u, w1) \<Rightarrow>
                      (case us remote_file of
                         None \<Rightarrow> (Inl (KeyError remote_file), w1)
                       | Some remote_file_url \<Rightarrow>
                           (Inr (local_filepath, remote_file_url), w1))))))"

text \<open>
  Lines 203 to 209 of \<open>sync_file\<close>: an existing local file is removed, then
  \<open>remote.download\<close> is called; what it returns is dropped.
\<close>

definition replace_file ::
  "remote_module \<Rightarrow> job \<Rightarrow> path \<Rightarrow> world \<Rightarrow> (error + unit) \<times> world" where
  "replace_file R server_file local_filepath w =
     (case os_path_exists local_filepath w of
        (present, w1) \<Rightarrow>
         (case (if present then os_remove local_filepath w1 else (Inr (), w1)) of
            (Inl e, w2) \<Rightarrow> (Inl e, w2)
          | (Inr u, w2) \<Rightarrow>
             (let w3 = emit (Download server_file local_filepath) w2;
                  (ok, d) = download R server_file local_filepath (disk w3)
              in (Inr (), w3\<lparr>disk := d\<rparr>))))"

text \<open>\<open>sync_file\<close> (lines 184 to 209).\<close>

definition sync_file ::
  "remote_module \<Rightarrow> MCManager \<Rightarrow> string \<Rightarrow> world \<Rightarrow> (error + unit) \<times> world" where
  "sync_file R self remote_file w =
     (case create_file_path self remote_file w of
        (Inl e, w1) \<Rightarrow> (Inl e, w1)
      | (Inr (local_filepath, remote_file_url), w1) \<Rightarrow>
         (case remote_file_url of
            None \<Rightarrow> (Inr (), w1)
          | Some u \<Rightarrow>
             (let w2 = emit (GetFileDownload u) w1 in
              case get_file_download R u of
                None \<Rightarrow> (Inl (ValueError ''Server file is not set''), w2)
              | Some server_file \<Rightarrow> replace_file R server_file local_filepath w2)))"

subsection \<open>Reading a run\<close>

text \<open>
  An entry that \<open>os.remove\<close> removes: a file that is not locked. The calls that remove,
  the calls that download, and the file names handed to \<open>remote.download_files\<close>.
\<close>

definition removable :: "filesystem \<Rightarrow> path \<Rightarrow> bool" where
  "removable d p = (case map_of d p of Some (File c locked) \<Rightarrow> \<not> locked | Some Dir \<Rightarrow> False | None \<Rightarrow> False)"

fun is_remove :: "event \<Rightarrow> bool" where
  "is_remove (Remove p) = True"
| "is_remove e = False"

fun is_download :: "event \<Rightarrow> bool" where
  "is_download (DownloadFiles js dir) = True"
| "is_download (Download j p) = True"
| "is_download e = False"

fun submitted :: "event list \<Rightarrow> string list" where
  "submitted [] = []"
| "submitted (DownloadFiles js dir # es) = map snd js @ submitted es"
| "submitted (e # es) = submitted es"

text \<open>No removal comes after the first download call.\<close>

definition deletions_before_downloads :: "event list \<Rightarrow> bool" where
  "deletions_before_downloads es =
     (filter is_remove (dropWhile (\<lambda>e. \<not> is_download e) es) = [])"

text \<open>
  The paths that the loop of lines 169 to 173 hands to \<open>os.remove\<close>: the entries of the
  listing that the server does not name, in the listing's order.
\<close>

definition stale :: "string list \<Rightarrow> path \<Rightarrow> string list \<Rightarrow> path list" where
  "stale server_mods local_dir listing =
     map (\<lambda>file. local_dir @ [file]) (filter (\<lambda>file. file \<notin> set server_mods) listing)"

subsection \<open>A sample installation\<close>

text \<open>
  A server and a local installation to run the code on. The server offers \<open>b.jar\<close> and
  \<open>c.jar\<close> as mods, has no listing for the resource packs, lists no shader pack and has
  no download list for them, and offers \<open>options.txt\<close>. Its downloads always succeed and
  write the file. The manifest has no URL for \<open>config\<close> and \<open>servers\<close>.
\<close>

definition write_file :: "path \<Rightarrow> string \<Rightarrow> filesystem \<Rightarrow> filesystem" where
  "write_file p c d = filter (\<lambda>e. fst e \<noteq> p) d @ [(p, File c False)]"

fun fetch_all ::
  "nat \<Rightarrow> nat \<Rightarrow> job list \<Rightarrow> path \<Rightarrow> filesystem \<Rightarrow> progress list \<times> filesystem" where
  "fetch_all n m [] dir d = ([], d)"
| "fetch_all n m ((u, name) # js) dir d =
     (case fetch_all (Suc n) m js dir (write_file (dir @ [name]) u d) of
        (ps, d1) \<Rightarrow> ((Suc n, m, name, False) # ps, d1))"

definition sample_remote :: remote_module where
  "sample_remote = \<lparr>
     get_filenames = (\<lambda>u.
       if u = ''https://srv/mods'' then Some [''b.jar'', ''c.jar'']
       else if u = ''https://srv/shaderpacks'' then Some []
       else None),
     get_file_downloads = (\<lambda>u.
       if u = ''https://srv/mods''
       then Some [(''https://srv/mods/b.jar'', ''b.jar''), (''https://srv/mods/c.jar'', ''c.jar'')]
       else None),
     get_file_download = (\<lambda>u.
       if u = ''https://srv/options'' then Some (''https://srv/options.txt'', ''options.txt'')
       else None),
     download = (\<lambda>j p d. (True, write_file p (fst j) d)),
     download_files = (\<lambda>js dir d. fetch_all 0 (length js) js dir d) \<rparr>"

text \<open>The same server when every single download fails and writes nothing.\<close>

definition failing_remote :: remote_module where
  "failing_remote = sample_remote\<lparr>download := (\<lambda>j p d. (False, d))\<rparr>"

definition sample_urls :: "string \<rightharpoonup> url option" where
  "sample_urls =
     [''config'' \<mapsto> None,
      ''mods'' \<mapsto> Some ''https://srv/mods'',
      ''resourcepacks'' \<mapsto> Some ''https://srv/resourcepacks'',
      ''shaderpacks'' \<mapsto> Some ''https://srv/shaderpacks'',
      ''options'' \<mapsto> Some ''https://srv/options'',
      ''servers'' \<mapsto> None]"

definition sample_manager :: MCManager where
  "sample_manager =
     \<lparr> work_dir = [''mcdata''], remote_config = Some \<lparr> urls = Some sample_urls \<rparr> \<rparr>"

definition sample_world :: world where
  "sample_world = \<lparr>
     disk =
       [([''mcdata''], Dir),
        ([''mcdata'', ''mods''], Dir),
        ([''mcdata'', ''mods'', ''a.jar''], File ''old a'' False),
        ([''mcdata'', ''mods'', ''b.jar''], File ''old b'' False),
        ([''mcdata'', ''resourcepacks''], Dir),
        ([''mcdata'', ''shaderpacks''], Dir),
        ([''mcdata'', ''shaderpacks'', ''old.zip''], File ''old shader'' False),
        ([''mcdata'', ''options.txt''], File ''old options'' False)],
     trace = [] \<rparr>"

text \<open>
  A mods directory with four entries: of the three that the server does not offer,
  \<open>a.jar\<close> is locked, \<open>old.jar\<close> comes before it and \<open>z.jar\<close> after it.
\<close>

definition locked_world :: world where
  "locked_world = \<lparr>
     disk =
       [([''mcdata''], Dir),
        ([''mcdata'', ''mods''], Dir),
        ([''mcdata'', ''mods'', ''old.jar''], File ''old'' False),
        ([''mcdata'', ''mods'', ''a.jar''], File ''old a'' True),
        ([''mcdata'', ''mods'', ''b.jar''], File ''old b'' False),
        ([''mcdata'', ''mods'', ''z.jar''], File ''old z'' False)],
     trace = [] \<rparr>"

text \<open>An installation whose \<open>options.txt\<close> is locked.\<close>

definition locked_options_world :: world where
  "locked_options_world = \<lparr>
     disk =
       [([''mcdata''], Dir),
        ([''mcdata'', ''options.txt''], File ''old options'' True)],
     trace = [] \<rparr>"

section \<open>The file system operations\<close>

lemma map_of_filter_neq:
  "map_of (filter (\<lambda>e. fst e \<noteq> p) d) q = (if q = p then None else map_of d q)"
  by (induction d) auto

lemma os_remove_trace: "trace (snd (os_remove p w)) = trace w @ [Remove p]"
  by (simp add: os_remove_def emit_def Let_def split: option.splits node.splits)

lemma os_remove_Inr:
  "os_remove p w = (Inr u, w1) \<Longrightarrow>
     removable (disk w) p \<and> disk w1 = filter (\<lambda>e. fst e \<noteq> p) (disk w) \<and>
     trace w1 = trace w @ [Remove p]"
  by (auto simp: os_remove_def emit_def removable_def Let_def split: option.splits node.splits if_splits)

lemma os_remove_Inl:
  "os_remove p w = (Inl e, w1) \<Longrightarrow>
     \<not> removable (disk w) p \<and> disk w1 = disk w \<and> trace w1 = trace w @ [Remove p]"
  by (auto simp: os_remove_def emit_def removable_def Let_def split: option.splits node.splits if_splits)

lemma os_remove_removable:
  "removable (disk w) p \<Longrightarrow>
     os_remove p w = (Inr (), \<lparr>disk = filter (\<lambda>e. fst e \<noteq> p) (disk w), trace = trace w @ [Remove p]\<rparr>)"
  by (auto simp: os_remove_def emit_def removable_def Let_def split: option.splits node.splits if_splits)

lemma os_remove_not_removable:
  "\<not> removable (disk w) p \<Longrightarrow> \<exists>e. os_remove p w = (Inl e, emit (Remove p) w)"
  by (auto simp: os_remove_def emit_def removable_def Let_def split: option.splits node.splits if_splits)

lemma remove_invalid_trace:
  "remove_invalid sm ld xs w = (r, w1) \<Longrightarrow> \<exists>ps. trace w1 = trace w @ map Remove ps"
proof (induction xs arbitrary: w)
  case Nil
  then show ?case by simp
next
  case (Cons x xs)
  show ?case
  proof (cases "x \<in> set sm")
    case True
    with Cons show ?thesis by simp
  next
    case False
    obtain r0 w0 where rm: "os_remove (ld @ [x]) w = (r0, w0)" by (cases "os_remove (ld @ [x]) w")
    have t0: "trace w0 = trace w @ [Remove (ld @ [x])]"
      using os_remove_trace [of "ld @ [x]" w] rm by simp
    show ?thesis
    proof (cases r0)
      case (Inl e)
      with Cons.prems False rm have "w1 = w0" by simp
      with t0 have "trace w1 = trace w @ map Remove [ld @ [x]]" by simp
      then show ?thesis by blast
    next
      case (Inr u)
      with Cons.prems False rm have "remove_invalid sm ld xs w0 = (r, w1)" by simp
      from Cons.IH [OF this] obtain ps where "trace w1 = trace w0 @ map Remove ps" by blast
      with t0 have "trace w1 = trace w @ map Remove ((ld @ [x]) # ps)" by simp
      then show ?thesis by blast
    qed
  qed
qed

lemma remove_invalid_untouched:
  "remove_invalid sm ld xs w = (r, w1) \<Longrightarrow>
   \<forall>x\<in>set xs. x \<notin> set sm \<longrightarrow> q \<noteq> ld @ [x] \<Longrightarrow>
   map_of (disk w1) q = map_of (disk w) q"
proof (induction xs arbitrary: w)
  case Nil
  then show ?case by simp
next
  case (Cons x xs)
  show ?case
  proof (cases "x \<in> set sm")
    case True
    with Cons show ?thesis by simp
  next
    case False
    obtain r0 w0 where rm: "os_remove (ld @ [x]) w = (r0, w0)" by (cases "os_remove (ld @ [x]) w")
    from False Cons.prems(2) have ne: "q \<noteq> ld @ [x]" by simp
    show ?thesis
    proof (cases r0)
      case (Inl e)
      with Cons.prems False rm have "w1 = w0" by simp
      with rm Inl os_remove_Inl show ?thesis by metis
    next
      case (Inr u)
      with Cons.prems False rm have "remove_invalid sm ld xs w0 = (r, w1)" by simp
      from Cons.IH [OF this] Cons.prems(2) have "map_of (disk w1) q = map_of (disk w0) q" by simp
      moreover from rm Inr have "disk w0 = filter (\<lambda>e. fst e \<noteq> ld @ [x]) (disk w)"
        using os_remove_Inr by blast
      ultimately show ?thesis using ne by (simp add: map_of_filter_neq)
    qed
  qed
qed

lemma remove_invalid_gone:
  "remove_invalid sm ld xs w = (Inr u, w1) \<Longrightarrow> x \<in> set xs \<Longrightarrow> x \<notin> set sm \<Longrightarrow>
   map_of (disk w1) (ld @ [x]) = None"
proof (induction xs arbitrary: w)
  case Nil
  then show ?case by simp
next
  case (Cons y ys)
  show ?case
  proof (cases "y \<in> set sm")
    case True
    with Cons show ?thesis by auto
  next
    case False
    obtain r0 w0 where rm: "os_remove (ld @ [y]) w = (r0, w0)" by (cases "os_remove (ld @ [y]) w")
    with Cons.prems False obtain u0 where r0: "r0 = Inr u0" and
      rest: "remove_invalid sm ld ys w0 = (Inr u, w1)"
      by (cases r0) auto
    show ?thesis
    proof (cases "x \<in> set ys")
      case True
      from Cons.IH [OF rest True Cons.prems(3)] show ?thesis .
    next
      case False
      with Cons.prems have xy: "x = y" by simp
      have d0: "map_of (disk w0) (ld @ [y]) = None"
        using os_remove_Inr [OF rm [unfolded r0]] by (simp add: map_of_filter_neq)
      show ?thesis
      proof (cases "\<forall>z\<in>set ys. z \<notin> set sm \<longrightarrow> ld @ [y] \<noteq> ld @ [z]")
        case True
        from remove_invalid_untouched [OF rest True] d0 xy show ?thesis by simp
      next
        case False
        then have "y \<in> set ys" by auto
        with \<open>x \<notin> set ys\<close> xy show ?thesis by simp
      qed
    qed
  qed
qed

lemma removable_filter_neq:
  "q \<noteq> p \<Longrightarrow> removable (filter (\<lambda>e. fst e \<noteq> p) d) q = removable d q"
  by (simp add: removable_def map_of_filter_neq)

lemma remove_invalid_fails:
  "x \<in> set xs \<Longrightarrow> x \<notin> set sm \<Longrightarrow> \<not> removable (disk w) (ld @ [x]) \<Longrightarrow>
   \<exists>e w1. remove_invalid sm ld xs w = (Inl e, w1)"
proof (induction xs arbitrary: w)
  case Nil
  then show ?case by simp
next
  case (Cons y ys)
  show ?case
  proof (cases "y \<in> set sm")
    case True
    with Cons show ?thesis by auto
  next
    case False
    show ?thesis
    proof (cases "removable (disk w) (ld @ [y])")
      case nr: False
      from os_remove_not_removable [OF nr] False show ?thesis by auto
    next
      case True
      then have xy: "x \<noteq> y" using Cons.prems by auto
      let ?w0 = "\<lparr>disk = filter (\<lambda>e. fst e \<noteq> ld @ [y]) (disk w), trace = trace w @ [Remove (ld @ [y])]\<rparr>"
      have rm: "os_remove (ld @ [y]) w = (Inr (), ?w0)" using os_remove_removable [OF True] .
      have "\<not> removable (disk ?w0) (ld @ [x])"
        using Cons.prems(3) xy by (simp add: removable_filter_neq)
      moreover have "x \<in> set ys" using Cons.prems(1) xy by simp
      ultimately obtain e w1 where "remove_invalid sm ld ys ?w0 = (Inl e, w1)"
        using Cons.IH [of ?w0] Cons.prems(2) by blast
      with rm False show ?thesis by simp
    qed
  qed
qed

lemma dir_entries_distinct:
  assumes "distinct (map fst d)"
  shows "distinct (dir_entries d dir)"
proof -
  let ?ps = "filter (\<lambda>p. p \<noteq> [] \<and> butlast p = dir) (map fst d)"
  have "inj_on last (set ?ps)"
  proof (rule inj_onI)
    fix p q :: path
    assume "p \<in> set ?ps" "q \<in> set ?ps" and l: "last p = last q"
    then have "p \<noteq> []" "q \<noteq> []" "butlast p = butlast q" by auto
    with l have "butlast p @ [last p] = butlast q @ [last q]" by simp
    with \<open>p \<noteq> []\<close> \<open>q \<noteq> []\<close> show "p = q" by simp
  qed
  moreover have "distinct ?ps" using assms by simp
  ultimately have "distinct (map last ?ps)" by (simp only: distinct_map simp_thms)
  then show ?thesis by (simp only: dir_entries_def)
qed

lemma remove_invalid_succeeds:
  "distinct xs \<Longrightarrow> \<forall>x\<in>set xs. x \<notin> set sm \<longrightarrow> removable (disk w) (ld @ [x]) \<Longrightarrow>
   remove_invalid sm ld xs w =
     (Inr (), \<lparr>disk = filter (\<lambda>e. fst e \<notin> set (stale sm ld xs)) (disk w),
               trace = trace w @ map Remove (stale sm ld xs)\<rparr>)"
proof (induction xs arbitrary: w)
  case Nil
  then show ?case by (simp add: stale_def)
next
  case (Cons y ys)
  show ?case
  proof (cases "y \<in> set sm")
    case True
    with Cons show ?thesis by (simp add: stale_def)
  next
    case False
    let ?p = "ld @ [y]"
    let ?w0 = "\<lparr>disk = filter (\<lambda>e. fst e \<noteq> ?p) (disk w), trace = trace w @ [Remove ?p]\<rparr>"
    have rm: "os_remove ?p w = (Inr (), ?w0)"
      using os_remove_removable [of w ?p] Cons.prems(2) False by simp
    have "\<forall>x\<in>set ys. x \<notin> set sm \<longrightarrow> removable (disk ?w0) (ld @ [x])"
    proof (intro ballI impI)
      fix x assume x: "x \<in> set ys" "x \<notin> set sm"
      with Cons.prems have "x \<noteq> y" "removable (disk w) (ld @ [x])" by auto
      then show "removable (disk ?w0) (ld @ [x])" by (simp add: removable_filter_neq)
    qed
    moreover have "distinct ys" using Cons.prems by simp
    ultimately have "remove_invalid sm ld ys ?w0 =
      (Inr (), \<lparr>disk = filter (\<lambda>e. fst e \<notin> set (stale sm ld ys)) (disk ?w0),
               trace = trace ?w0 @ map Remove (stale sm ld ys)\<rparr>)"
      using Cons.IH [of ?w0] by blast
    moreover have "filter (\<lambda>e. fst e \<notin> set (stale sm ld ys)) (filter (\<lambda>e. fst e \<noteq> ?p) (disk w))
       = filter (\<lambda>e. fst e \<notin> set (stale sm ld (y # ys))) (disk w)"
      using False by (auto simp: stale_def intro: filter_cong)
    moreover have "stale sm ld (y # ys) = ?p # stale sm ld ys"
      using False by (simp add: stale_def)
    ultimately show ?thesis using rm False by simp
  qed
qed

lemma remove_invalid_append:
  "remove_invalid sm ld (xs @ ys) w =
     (case remove_invalid sm ld xs w of
        (Inl e, w1) \<Rightarrow> (Inl e, w1)
      | (Inr u, w1) \<Rightarrow> remove_invalid sm ld ys w1)"
  by (induction xs arbitrary: w) (auto split: prod.splits sum.splits)

lemma no_download_submitted: "\<forall>e\<in>set es. \<not> is_download e \<Longrightarrow> submitted es = []"
  by (induction es rule: submitted.induct) auto

lemma remove_invalid_mods_trace:
  "remove_invalid_mods R ld u w = (r, w1) \<Longrightarrow>
   \<exists>es. trace w1 = trace w @ es \<and> (\<forall>e\<in>set es. \<not> is_download e)"
proof (cases "get_filenames R u")
  case None
  assume "remove_invalid_mods R ld u w = (r, w1)"
  with None have "trace w1 = trace w @ [GetFilenames u]"
    by (auto simp: remove_invalid_mods_def emit_def Let_def)
  then show ?thesis by auto
next
  case (Some sm)
  assume run: "remove_invalid_mods R ld u w = (r, w1)"
  let ?w0 = "emit (GetFilenames u) w"
  obtain r2 w2 where ls: "os_listdir ld ?w0 = (r2, w2)" by (cases "os_listdir ld ?w0")
  then have t2: "trace w2 = trace w @ [GetFilenames u, Listdir ld]"
    by (auto simp: os_listdir_def emit_def Let_def split: if_splits)
  show ?thesis
  proof (cases r2)
    case (Inl e)
    with run Some ls have "w1 = w2" by (simp add: remove_invalid_mods_def Let_def)
    with t2 show ?thesis by auto
  next
    case (Inr listing)
    with run Some ls have "remove_invalid sm ld listing w2 = (r, w1)"
      by (simp add: remove_invalid_mods_def Let_def)
    from remove_invalid_trace [OF this] obtain ps where "trace w1 = trace w2 @ map Remove ps" by blast
    with t2 have "trace w1 = trace w @ ([GetFilenames u, Listdir ld] @ map Remove ps)" by simp
    moreover have "\<forall>e\<in>set ([GetFilenames u, Listdir ld] @ map Remove ps). \<not> is_download e" by auto
    ultimately show ?thesis by blast
  qed
qed

lemma map_of_filter_notin:
  "map_of (filter (\<lambda>e. fst e \<notin> S) d) q = (if q \<in> S then None else map_of d q)"
  by (induction d) auto

lemma filter_absent: "map_of d p = None \<Longrightarrow> filter (\<lambda>e. fst e \<noteq> p) d = d"
  by (induction d) (auto split: if_splits)

lemma os_remove_fails:
  "\<not> removable (disk w) p \<Longrightarrow>
   \<exists>e. os_remove p w = (Inl e, emit (Remove p) w) \<and>
       (e = FileNotFoundError p \<or> e = IsADirectoryError p \<or> e = PermissionError p)"
  by (auto simp: os_remove_def emit_def removable_def Let_def
      split: option.splits node.splits if_splits)

lemma os_remove_present_fails:
  "map_of (disk w) p \<noteq> None \<Longrightarrow> \<not> removable (disk w) p \<Longrightarrow>
   \<exists>e. os_remove p w = (Inl e, emit (Remove p) w) \<and>
       (e = IsADirectoryError p \<or> e = PermissionError p)"
  by (auto simp: os_remove_def emit_def removable_def Let_def
      split: option.splits node.splits if_splits)

lemma new_events_append [simp]: "trace w1 = trace w @ es \<Longrightarrow> new_events w w1 = es"
  by (simp add: new_events_def)

lemma os_listdir_dir:
  "is_dir (disk w) dir \<Longrightarrow>
   os_listdir dir w = (Inr (dir_entries (disk w) dir), \<lparr>disk = disk w, trace = trace w @ [Listdir dir]\<rparr>)"
  by (simp add: os_listdir_def emit_def Let_def)

lemma makedirs_trace:
  "makedirs p w = (r, w1) \<Longrightarrow> trace w1 = trace w @ [Mkdir p]"
  by (auto simp: makedirs_def emit_def Let_def split: sum.splits)

lemmas sample_defs = sample_remote_def sample_manager_def sample_urls_def sample_world_def
  locked_world_def write_file_def

lemmas run_defs = sync_dir_resolved_def remove_invalid_mods_def download_mods_def
  os_listdir_def dir_entries_def os_remove_def emit_def is_dir_def new_events_def Let_def

section \<open>Path resolution of \<open>sync_dir\<close>\<close>

text \<open>
  The tests of lines 70 to 81 are made on the module object, so \<open>_create_dir_path\<close> never
  returns: whatever the manifest and the name, it raises before it touches the disk,
  and \<open>sync_dir\<close> with it.
\<close>

lemma create_dir_path_raises:
  "\<exists>e. create_dir_path self remote_dir w = (Inl e, w)"
  by (simp add: create_dir_path_def remote_def split: option.splits)

lemma sync_dir_raises:
  "\<exists>e. sync_dir R self remote_dir w = (Inl e, w)"
proof -
  obtain e where "create_dir_path self remote_dir w = (Inl e, w)"
    using create_dir_path_raises by blast
  then show ?thesis by (simp add: sync_dir_def)
qed

text \<open>
  Claim C1: for a category name that the manifest's \<open>urls\<close> mapping contains, \<open>sync_dir\<close>
  resolves the local directory and the URL without raising. The code does not: the
  sample manifest maps \<open>mods\<close> to a URL, and \<open>sync_dir\<close> raises \<open>ValueError\<close> for \<open>mods\<close>,
  with the disk untouched and no call made.
\<close>

theorem sync_dir_listed_category_raises:
  "sample_urls ''mods'' = Some (Some ''https://srv/mods'') \<and>
   sync_dir sample_remote sample_manager ''mods'' sample_world =
     (Inl (ValueError ''Invalid remote directory''), sample_world)"
  by (simp add: sample_urls_def sync_dir_def create_dir_path_def remote_def sample_manager_def)

text \<open>
  Claim C6: for a category whose manifest URL is \<open>None\<close>, \<open>sync_dir\<close> yields an empty
  progress sequence and changes nothing on the disk. The code changes nothing, but it
  yields no empty sequence: the sample manifest maps \<open>config\<close> to \<open>None\<close>, and \<open>sync_dir\<close>
  raises \<open>ValueError\<close> for \<open>config\<close> instead of returning.
\<close>

theorem sync_dir_absent_url_raises:
  "sample_urls ''config'' = Some None \<and>
   sync_dir sample_remote sample_manager ''config'' sample_world =
     (Inl (ValueError ''Invalid remote directory''), sample_world)"
  by (simp add: sample_urls_def sync_dir_def create_dir_path_def remote_def sample_manager_def)

text \<open>
  Lines 162 to 164 themselves do return an empty sequence and leave the world alone,
  when they are given a pair without URL.
\<close>

lemma sync_dir_resolved_without_url:
  "sync_dir_resolved R local_dir None w = (Inr [], w)"
  by (simp add: sync_dir_resolved_def)

section \<open>The removal of stale files\<close>

text \<open>
  Claim C2: \<open>sync_dir\<close> deletes exactly the local files that the server does not list. The
  code does not delete any: the sample mods directory holds \<open>a.jar\<close> and \<open>b.jar\<close>, the
  server lists \<open>b.jar\<close> and \<open>c.jar\<close>, and \<open>sync_dir\<close> raises during path resolution and
  leaves \<open>a.jar\<close> where it is.
\<close>

theorem sync_dir_keeps_unlisted_file:
  "get_filenames sample_remote ''https://srv/mods'' = Some [''b.jar'', ''c.jar''] \<and>
   dir_entries (disk sample_world) [''mcdata'', ''mods''] = [''a.jar'', ''b.jar''] \<and>
   sync_dir sample_remote sample_manager ''mods'' sample_world =
     (Inl (ValueError ''Invalid remote directory''), sample_world)"
  by (simp add: sample_remote_def sample_world_def dir_entries_def sync_dir_def
      create_dir_path_def remote_def sample_manager_def)

text \<open>
  Lines 165 to 182 do what the claim says when they are run on a resolved directory: if
  every stale entry can be removed, exactly the stale entries are removed, in the order
  of the listing, and the download step starts from the disk without them.
\<close>

lemma remove_invalid_mods_succeeds:
  assumes "get_filenames R u = Some sm" and "is_dir (disk w) ld"
    and "distinct (map fst (disk w))"
    and "\<forall>x\<in>set (dir_entries (disk w) ld). x \<notin> set sm \<longrightarrow> removable (disk w) (ld @ [x])"
  shows "remove_invalid_mods R ld u w =
    (Inr (), \<lparr>disk = filter (\<lambda>e. fst e \<notin> set (stale sm ld (dir_entries (disk w) ld))) (disk w),
              trace = trace w @ [GetFilenames u, Listdir ld]
                @ map Remove (stale sm ld (dir_entries (disk w) ld))\<rparr>)"
proof -
  let ?w1 = "emit (GetFilenames u) w"
  let ?w2 = "\<lparr>disk = disk w, trace = trace w @ [GetFilenames u, Listdir ld]\<rparr>"
  have ls: "os_listdir ld ?w1 = (Inr (dir_entries (disk w) ld), ?w2)"
    using os_listdir_dir [of ?w1 ld] assms(2) by (simp add: emit_def)
  have "distinct (dir_entries (disk w) ld)" using assms(3) by (rule dir_entries_distinct)
  moreover have "\<forall>x\<in>set (dir_entries (disk w) ld). x \<notin> set sm \<longrightarrow> removable (disk ?w2) (ld @ [x])"
    using assms(4) by simp
  ultimately have "remove_invalid sm ld (dir_entries (disk w) ld) ?w2 =
     (Inr (), \<lparr>disk = filter (\<lambda>e. fst e \<notin> set (stale sm ld (dir_entries (disk w) ld))) (disk ?w2),
               trace = trace ?w2 @ map Remove (stale sm ld (dir_entries (disk w) ld))\<rparr>)"
    by (rule remove_invalid_succeeds)
  with ls assms(1) show ?thesis by (simp add: remove_invalid_mods_def Let_def)
qed

lemma download_mods_Some:
  "get_file_downloads R u = Some jobs \<Longrightarrow>
   download_mods R ld u w =
     (Inr (fst (download_files R jobs ld (disk w))),
      \<lparr>disk = snd (download_files R jobs ld (disk w)),
       trace = trace w @ [GetFileDownloads u, DownloadFiles jobs ld]\<rparr>)"
  by (simp add: download_mods_def emit_def Let_def split: prod.splits)

lemma download_mods_None:
  "get_file_downloads R u = None \<Longrightarrow>
   download_mods R ld u w = (Inl (ValueError ''URLs to download are not set''), emit (GetFileDownloads u) w)"
  by (simp add: download_mods_def Let_def)

lemma sync_dir_resolved_reconciles:
  assumes "get_filenames R u = Some sm" and "is_dir (disk w) ld"
    and "distinct (map fst (disk w))"
    and "\<forall>x\<in>set (dir_entries (disk w) ld). x \<notin> set sm \<longrightarrow> removable (disk w) (ld @ [x])"
    and "get_file_downloads R u = Some jobs"
    and "d1 = filter (\<lambda>e. fst e \<notin> set (stale sm ld (dir_entries (disk w) ld))) (disk w)"
  shows "sync_dir_resolved R ld (Some u) w =
    (Inr (fst (download_files R jobs ld d1)),
     \<lparr>disk = snd (download_files R jobs ld d1),
      trace = trace w @ [GetFilenames u, Listdir ld]
        @ map Remove (stale sm ld (dir_entries (disk w) ld))
        @ [GetFileDownloads u, DownloadFiles jobs ld]\<rparr>)"
  using remove_invalid_mods_succeeds [OF assms(1-4)] download_mods_Some [OF assms(5)] assms(6)
  by (simp add: sync_dir_resolved_def)

text \<open>After the removal the directory lists the entries that the server names, and
  every other path of the disk is as it was.\<close>

lemma dir_entries_after_deletion:
  "set (dir_entries d ld) \<subseteq> set L \<Longrightarrow>
   dir_entries (filter (\<lambda>e. fst e \<notin> set (stale sm ld L)) d) ld
     = filter (\<lambda>x. x \<in> set sm) (dir_entries d ld)"
proof (induction d)
  case Nil
  then show ?case by (simp add: dir_entries_def)
next
  case (Cons e d)
  then have IH: "dir_entries (filter (\<lambda>e. fst e \<notin> set (stale sm ld L)) d) ld
     = filter (\<lambda>x. x \<in> set sm) (dir_entries d ld)"
    by (auto simp: dir_entries_def split: if_splits)
  show ?case
  proof (cases "fst e \<noteq> [] \<and> butlast (fst e) = ld")
    case False
    then have "fst e \<notin> set (stale sm ld L)" by (auto simp: stale_def)
    with False IH show ?thesis by (auto simp: dir_entries_def)
  next
    case True
    then have e: "fst e = ld @ [last (fst e)]" by (metis append_butlast_last_id)
    from True Cons.prems have inL: "last (fst e) \<in> set L" by (auto simp: dir_entries_def)
    have "fst e \<in> set (stale sm ld L) \<longleftrightarrow> last (fst e) \<notin> set sm"
    proof
      assume "fst e \<in> set (stale sm ld L)"
      then obtain x where "fst e = ld @ [x]" "x \<notin> set sm" by (auto simp: stale_def)
      then show "last (fst e) \<notin> set sm" by simp
    next
      assume "last (fst e) \<notin> set sm"
      with inL have "ld @ [last (fst e)] \<in> set (stale sm ld L)" by (auto simp: stale_def)
      with e show "fst e \<in> set (stale sm ld L)" by simp
    qed
    with True IH show ?thesis by (auto simp: dir_entries_def)
  qed
qed

lemma other_paths_after_deletion:
  "q \<notin> set (stale sm ld L) \<Longrightarrow>
   map_of (filter (\<lambda>e. fst e \<notin> set (stale sm ld L)) d) q = map_of d q"
  by (simp add: map_of_filter_notin)

text \<open>
  Claim C5 says that a removal that fails is logged and skipped, and that the remaining
  removals and all downloads still take place. Lines 169 to 173 do not guard
  \<open>os.remove\<close>: in the mods directory with the locked \<open>a.jar\<close>, \<open>old.jar\<close> is removed, the
  removal of \<open>a.jar\<close> raises \<open>PermissionError\<close>, and the run ends there: the stale
  \<open>z.jar\<close> stays, and nothing is downloaded.
\<close>

theorem sync_dir_resolved_stops_at_locked_file:
  "get_filenames sample_remote ''https://srv/mods'' = Some [''b.jar'', ''c.jar''] \<and>
   dir_entries (disk locked_world) [''mcdata'', ''mods'']
     = [''old.jar'', ''a.jar'', ''b.jar'', ''z.jar''] \<and>
   removable (disk locked_world) [''mcdata'', ''mods'', ''z.jar''] \<and>
   sync_dir_resolved sample_remote [''mcdata'', ''mods''] (Some ''https://srv/mods'') locked_world =
     (Inl (PermissionError [''mcdata'', ''mods'', ''a.jar'']),
      \<lparr>disk =
         [([''mcdata''], Dir),
          ([''mcdata'', ''mods''], Dir),
          ([''mcdata'', ''mods'', ''a.jar''], File ''old a'' True),
          ([''mcdata'', ''mods'', ''b.jar''], File ''old b'' False),
          ([''mcdata'', ''mods'', ''z.jar''], File ''old z'' False)],
       trace =
         [GetFilenames ''https://srv/mods'', Listdir [''mcdata'', ''mods''],
          Remove [''mcdata'', ''mods'', ''old.jar''],
          Remove [''mcdata'', ''mods'', ''a.jar'']]\<rparr>)"
  by (simp add: run_defs sample_defs removable_def)

text \<open>
  Claim C5, as the code has it: when lines 165 to 182 run in a directory whose listing
  reaches a stale entry that cannot be removed, every stale entry before it having been
  removed, the exception of that \<open>os.remove\<close> ends the run. No later entry is removed or
  even tried, and no download list is requested.
\<close>

theorem sync_dir_resolved_removal_failure_aborts:
  assumes "get_filenames R u = Some server_mods"
    and "is_dir (disk w) local_dir"
    and "distinct (map fst (disk w))"
    and "dir_entries (disk w) local_dir = before @ file # rest"
    and "\<forall>x\<in>set before. x \<notin> set server_mods \<longrightarrow> removable (disk w) (local_dir @ [x])"
    and "file \<notin> set server_mods"
    and "\<not> removable (disk w) (local_dir @ [file])"
  shows "\<exists>e. sync_dir_resolved R local_dir (Some u) w =
    (Inl e,
     \<lparr>disk = filter (\<lambda>e. fst e \<notin> set (stale server_mods local_dir before)) (disk w),
      trace = trace w @ [GetFilenames u, Listdir local_dir]
        @ map Remove (stale server_mods local_dir before) @ [Remove (local_dir @ [file])]\<rparr>) \<and>
    (e = FileNotFoundError (local_dir @ [file]) \<or> e = IsADirectoryError (local_dir @ [file])
       \<or> e = PermissionError (local_dir @ [file]))"
proof -
  let ?w1 = "emit (GetFilenames u) w"
  let ?w2 = "\<lparr>disk = disk w, trace = trace w @ [GetFilenames u, Listdir local_dir]\<rparr>"
  let ?w3 = "\<lparr>disk = filter (\<lambda>e. fst e \<notin> set (stale server_mods local_dir before)) (disk ?w2),
              trace = trace ?w2 @ map Remove (stale server_mods local_dir before)\<rparr>"
  have ls: "os_listdir local_dir ?w1 = (Inr (before @ file # rest), ?w2)"
    using os_listdir_dir [of ?w1 local_dir] assms(2,4) by (simp add: emit_def)
  have "distinct (before @ file # rest)"
    using dir_entries_distinct [OF assms(3), of local_dir] assms(4) by simp
  then have "distinct before" by simp
  moreover have "\<forall>x\<in>set before. x \<notin> set server_mods \<longrightarrow> removable (disk ?w2) (local_dir @ [x])"
    using assms(5) by simp
  ultimately have pre: "remove_invalid server_mods local_dir before ?w2 = (Inr (), ?w3)"
    by (rule remove_invalid_succeeds)
  have "\<not> removable (disk ?w3) (local_dir @ [file])"
    using assms(7) by (simp add: removable_def map_of_filter_notin)
  from os_remove_fails [OF this] obtain e where
    rm: "os_remove (local_dir @ [file]) ?w3 = (Inl e, emit (Remove (local_dir @ [file])) ?w3)"
    and kind: "e = FileNotFoundError (local_dir @ [file]) \<or> e = IsADirectoryError (local_dir @ [file])
       \<or> e = PermissionError (local_dir @ [file])"
    by blast
  have "remove_invalid server_mods local_dir (before @ file # rest) ?w2
      = (Inl e, emit (Remove (local_dir @ [file])) ?w3)"
    using pre rm assms(6) by (simp add: remove_invalid_append)
  with ls assms(1) have "sync_dir_resolved R local_dir (Some u) w
      = (Inl e, emit (Remove (local_dir @ [file])) ?w3)"
    by (simp add: sync_dir_resolved_def remove_invalid_mods_def Let_def)
  with kind show ?thesis by (simp add: emit_def)
qed

theorem sync_dir_resolved_removal_failure_aborts_witness:
  "\<exists>e. sync_dir_resolved sample_remote [''mcdata'', ''mods''] (Some ''https://srv/mods'') locked_world =
    (Inl e,
     \<lparr>disk = filter (\<lambda>e. fst e \<notin> {[''mcdata'', ''mods'', ''old.jar'']}) (disk locked_world),
      trace = [GetFilenames ''https://srv/mods'', Listdir [''mcdata'', ''mods''],
               Remove [''mcdata'', ''mods'', ''old.jar''],
               Remove [''mcdata'', ''mods'', ''a.jar'']]\<rparr>)"
proof -
  have 1: "get_filenames sample_remote ''https://srv/mods'' = Some [''b.jar'', ''c.jar'']"
    by (simp add: sample_remote_def)
  have 2: "is_dir (disk locked_world) [''mcdata'', ''mods'']"
    by (simp add: is_dir_def locked_world_def)
  have 3: "distinct (map fst (disk locked_world))"
    by (simp add: locked_world_def)
  have 4: "dir_entries (disk locked_world) [''mcdata'', ''mods'']
     = [''old.jar''] @ ''a.jar'' # [''b.jar'', ''z.jar'']"
    by (simp add: dir_entries_def locked_world_def)
  have 5: "\<forall>x\<in>set [''old.jar'']. x \<notin> set [''b.jar'', ''c.jar''] \<longrightarrow>
     removable (disk locked_world) ([''mcdata'', ''mods''] @ [x])"
    by (simp add: removable_def locked_world_def)
  have 6: "''a.jar'' \<notin> set [''b.jar'', ''c.jar'']" by simp
  have 7: "\<not> removable (disk locked_world) ([''mcdata'', ''mods''] @ [''a.jar''])"
    by (simp add: removable_def locked_world_def)
  have t: "trace locked_world = []" by (simp add: locked_world_def)
  have s: "stale [''b.jar'', ''c.jar''] [''mcdata'', ''mods''] [''old.jar'']
      = [[''mcdata'', ''mods'', ''old.jar'']]"
    by (simp add: stale_def)
  from sync_dir_resolved_removal_failure_aborts [OF 1 2 3 4 5 6 7]
  obtain e where "sync_dir_resolved sample_remote [''mcdata'', ''mods''] (Some ''https://srv/mods'')
      locked_world =
    (Inl e,
     \<lparr>disk = filter (\<lambda>e. fst e \<notin> set (stale [''b.jar'', ''c.jar''] [''mcdata'', ''mods'']
                 [''old.jar''])) (disk locked_world),
      trace = trace locked_world @ [GetFilenames ''https://srv/mods'', Listdir [''mcdata'', ''mods'']]
        @ map Remove (stale [''b.jar'', ''c.jar''] [''mcdata'', ''mods''] [''old.jar''])
        @ [Remove ([''mcdata'', ''mods''] @ [''a.jar''])]\<rparr>)"
    by blast
  then show ?thesis unfolding s t by simp
qed

section \<open>The download step\<close>

text \<open>
  Claim C3 says that \<open>sync_dir\<close> submits exactly the files that the server lists and the
  local directory lacks. Lines 176 to 182 hand the whole download list to
  \<open>remote.download_files\<close>: \<open>b.jar\<close> is in the sample mods directory, and it is submitted
  together with \<open>c.jar\<close>.
\<close>

theorem sync_dir_resolved_submits_present_file:
  "get_filenames sample_remote ''https://srv/mods'' = Some [''b.jar'', ''c.jar''] \<and>
   ''b.jar'' \<in> set (dir_entries (disk sample_world) [''mcdata'', ''mods'']) \<and>
   submitted (new_events sample_world
     (snd (sync_dir_resolved sample_remote [''mcdata'', ''mods''] (Some ''https://srv/mods'')
        sample_world))) = [''b.jar'', ''c.jar'']"
  by (simp add: run_defs sample_defs)

text \<open>
  Claim C3, as the code has it: whenever lines 162 to 182 return normally for a URL,
  they have called \<open>remote.download_files\<close> exactly once, with the complete list that
  \<open>remote.get_file_downloads\<close> returned, whatever the local directory holds.
\<close>

theorem sync_dir_resolved_submits_whole_list:
  assumes "sync_dir_resolved R local_dir (Some u) w = (Inr yielded, w2)"
  shows "\<exists>jobs. get_file_downloads R u = Some jobs \<and>
           filter is_download (new_events w w2) = [DownloadFiles jobs local_dir] \<and>
           submitted (new_events w w2) = map snd jobs"
proof -
  obtain r1 w1 where rm: "remove_invalid_mods R local_dir u w = (r1, w1)"
    by (cases "remove_invalid_mods R local_dir u w")
  with assms obtain x where r1: "r1 = Inr x" and dl: "download_mods R local_dir u w1 = (Inr yielded, w2)"
    by (cases r1) (auto simp: sync_dir_resolved_def)
  from remove_invalid_mods_trace [OF rm] obtain es where
    es: "trace w1 = trace w @ es" "\<forall>e\<in>set es. \<not> is_download e" by blast
  from dl obtain jobs where jobs: "get_file_downloads R u = Some jobs"
    by (cases "get_file_downloads R u") (auto simp: download_mods_None)
  from dl download_mods_Some [OF jobs, of local_dir w1]
  have "trace w2 = trace w1 @ [GetFileDownloads u, DownloadFiles jobs local_dir]" by auto
  with es have t: "trace w2 = trace w @ (es @ [GetFileDownloads u, DownloadFiles jobs local_dir])"
    by simp
  have "filter is_download es = []" using es(2) by (simp add: filter_empty_conv)
  moreover have "submitted (es @ [GetFileDownloads u, DownloadFiles jobs local_dir]) = map snd jobs"
    using es(2) by (induction es rule: submitted.induct) auto
  ultimately show ?thesis using jobs new_events_append [OF t] by simp
qed

theorem sync_dir_resolved_submits_whole_list_witness:
  "get_file_downloads sample_remote ''https://srv/mods''
     = Some [(''https://srv/mods/b.jar'', ''b.jar''), (''https://srv/mods/c.jar'', ''c.jar'')] \<and>
   submitted (new_events sample_world
     (snd (sync_dir_resolved sample_remote [''mcdata'', ''mods''] (Some ''https://srv/mods'')
        sample_world))) = [''b.jar'', ''c.jar'']"
proof -
  obtain yielded w2 where run:
    "sync_dir_resolved sample_remote [''mcdata'', ''mods''] (Some ''https://srv/mods'') sample_world
       = (Inr yielded, w2)"
    by (simp add: run_defs sample_defs)
  from sync_dir_resolved_submits_whole_list [OF run] run show ?thesis
    by (auto simp: sample_remote_def)
qed

text \<open>
  Claim C4 says that a listing call that returns \<open>None\<close> makes \<open>sync_dir\<close> skip the
  category without raising. Line 167 raises: the sample server has no file names for the
  resource packs, and the run ends in \<open>ValueError\<close>.
\<close>

theorem sync_dir_resolved_raises_without_listing:
  "sample_urls ''resourcepacks'' = Some (Some ''https://srv/resourcepacks'') \<and>
   get_filenames sample_remote ''https://srv/resourcepacks'' = None \<and>
   fst (sync_dir_resolved sample_remote [''mcdata'', ''resourcepacks'']
     (Some ''https://srv/resourcepacks'') sample_world)
     = Inl (ValueError ''Server filenames are not set'')"
  by (simp add: run_defs sample_defs)

text \<open>
  Claim C4, as the code has it: when \<open>remote.get_filenames\<close> returns \<open>None\<close>, lines 162 to
  182 raise \<open>ValueError\<close> with nothing removed and nothing downloaded; when the removal
  has run and \<open>remote.get_file_downloads\<close> returns \<open>None\<close>, they raise \<open>ValueError\<close> in
  the world that the removal left, with nothing downloaded.
\<close>

theorem sync_dir_resolved_listing_unavailable:
  "(get_filenames R u = None \<longrightarrow>
      sync_dir_resolved R local_dir (Some u) w =
        (Inl (ValueError ''Server filenames are not set''), emit (GetFilenames u) w)) \<and>
   (remove_invalid_mods R local_dir u w = (Inr (), w1) \<and> get_file_downloads R u = None \<longrightarrow>
      sync_dir_resolved R local_dir (Some u) w =
        (Inl (ValueError ''URLs to download are not set''), emit (GetFileDownloads u) w1))"
  by (simp add: sync_dir_resolved_def remove_invalid_mods_def download_mods_None Let_def)

theorem sync_dir_resolved_listing_unavailable_witness:
  "sync_dir_resolved sample_remote [''mcdata'', ''resourcepacks'']
     (Some ''https://srv/resourcepacks'') sample_world =
     (Inl (ValueError ''Server filenames are not set''),
      emit (GetFilenames ''https://srv/resourcepacks'') sample_world) \<and>
   sync_dir_resolved sample_remote [''mcdata'', ''shaderpacks'']
     (Some ''https://srv/shaderpacks'') sample_world =
     (Inl (ValueError ''URLs to download are not set''),
      \<lparr>disk = filter (\<lambda>e. fst e \<noteq> [''mcdata'', ''shaderpacks'', ''old.zip'']) (disk sample_world),
       trace = [GetFilenames ''https://srv/shaderpacks'', Listdir [''mcdata'', ''shaderpacks''],
                Remove [''mcdata'', ''shaderpacks'', ''old.zip''],
                GetFileDownloads ''https://srv/shaderpacks'']\<rparr>)"
proof -
  have a: "get_filenames sample_remote ''https://srv/resourcepacks'' = None"
    by (simp add: sample_remote_def)
  have b: "remove_invalid_mods sample_remote [''mcdata'', ''shaderpacks'']
       ''https://srv/shaderpacks'' sample_world =
     (Inr (), \<lparr>disk = filter (\<lambda>e. fst e \<noteq> [''mcdata'', ''shaderpacks'', ''old.zip''])
                  (disk sample_world),
       trace = [GetFilenames ''https://srv/shaderpacks'', Listdir [''mcdata'', ''shaderpacks''],
                Remove [''mcdata'', ''shaderpacks'', ''old.zip'']]\<rparr>)"
    by (simp add: run_defs sample_defs)
  have c: "get_file_downloads sample_remote ''https://srv/shaderpacks'' = None"
    by (simp add: sample_remote_def)
  show ?thesis
    using sync_dir_resolved_listing_unavailable
      [of sample_remote "''https://srv/resourcepacks''" "[''mcdata'', ''resourcepacks'']"
        sample_world]
      sync_dir_resolved_listing_unavailable
      [of sample_remote "''https://srv/shaderpacks''" "[''mcdata'', ''shaderpacks'']"
        sample_world] a b c
    by (simp add: emit_def)
qed

section \<open>Removals come before downloads\<close>

lemma deletions_before_downloads_no_download:
  "\<forall>e\<in>set es. \<not> is_download e \<Longrightarrow> deletions_before_downloads es"
proof -
  assume "\<forall>e\<in>set es. \<not> is_download e"
  then have h: "dropWhile (\<lambda>e. \<not> is_download e) es = []"
    by (simp only: dropWhile_eq_Nil_conv)
  show ?thesis unfolding deletions_before_downloads_def by (simp only: h filter.simps)
qed

lemma deletions_before_downloads_then:
  "\<forall>e\<in>set es. \<not> is_download e \<Longrightarrow>
   deletions_before_downloads (es @ [GetFileDownloads u, DownloadFiles jobs ld])"
proof -
  assume "\<forall>e\<in>set es. \<not> is_download e"
  then have "dropWhile (\<lambda>e. \<not> is_download e) (es @ [GetFileDownloads u, DownloadFiles jobs ld])
      = dropWhile (\<lambda>e. \<not> is_download e) [GetFileDownloads u, DownloadFiles jobs ld]"
    by (intro dropWhile_append2) blast
  then show ?thesis unfolding deletions_before_downloads_def by simp
qed

lemma sync_dir_resolved_order:
  "deletions_before_downloads (new_events w (snd (sync_dir_resolved R ld url w)))"
proof (cases url)
  case None
  then show ?thesis
    by (simp add: sync_dir_resolved_def new_events_def deletions_before_downloads_def)
next
  case (Some u)
  obtain r1 w1 where rm: "remove_invalid_mods R ld u w = (r1, w1)"
    by (cases "remove_invalid_mods R ld u w")
  from remove_invalid_mods_trace [OF rm] obtain es where
    es: "trace w1 = trace w @ es" "\<forall>e\<in>set es. \<not> is_download e" by blast
  show ?thesis
  proof (cases r1)
    case (Inl e)
    with Some rm have "snd (sync_dir_resolved R ld url w) = w1" by (simp add: sync_dir_resolved_def)
    with es show ?thesis by (simp add: deletions_before_downloads_no_download)
  next
    case (Inr x)
    with Some rm have eq: "sync_dir_resolved R ld url w = download_mods R ld u w1"
      by (simp add: sync_dir_resolved_def)
    show ?thesis
    proof (cases "get_file_downloads R u")
      case None
      with eq es have "trace (snd (sync_dir_resolved R ld url w)) = trace w @ (es @ [GetFileDownloads u])"
        by (simp add: download_mods_None emit_def)
      moreover have "\<forall>e\<in>set (es @ [GetFileDownloads u]). \<not> is_download e" using es(2) by simp
      ultimately show ?thesis
        using deletions_before_downloads_no_download new_events_append by metis
    next
      case (Some jobs)
      with eq es have "trace (snd (sync_dir_resolved R ld url w))
          = trace w @ (es @ [GetFileDownloads u, DownloadFiles jobs ld])"
        by (simp add: download_mods_Some)
      from new_events_append [OF this] es(2) show ?thesis
        by (simp add: deletions_before_downloads_then)
    qed
  qed
qed

lemma sync_dir_order:
  "deletions_before_downloads (new_events w (snd (sync_dir R self remote_dir w)))"
proof -
  obtain e where "sync_dir R self remote_dir w = (Inl e, w)" using sync_dir_raises by blast
  then show ?thesis by (simp add: new_events_def deletions_before_downloads_def)
qed

text \<open>
  Claim C9: in every run of \<open>sync_dir\<close>, all removals of stale local files are over before
  any download begins. No removal follows a download call in the calls of \<open>sync_dir\<close>, nor
  in those of lines 162 to 182 run on any resolved directory; and when those lines reach
  \<open>remote.download_files\<close>, the removal step has ended without an exception, so that no
  entry of the listing that the server does not name is left on the disk that the
  download starts from.
\<close>

theorem deletions_precede_downloads:
  "deletions_before_downloads (new_events w (snd (sync_dir R self remote_dir w))) \<and>
   deletions_before_downloads
     (new_events w (snd (sync_dir_resolved R local_dir remote_dir_url w))) \<and>
   (sync_dir_resolved R local_dir (Some u) w = (Inr yielded, w2) \<longrightarrow>
      (\<exists>server_mods jobs w1.
         get_filenames R u = Some server_mods \<and> get_file_downloads R u = Some jobs \<and>
         remove_invalid_mods R local_dir u w = (Inr (), w1) \<and>
         (\<forall>file\<in>set (dir_entries (disk w) local_dir).
            file \<notin> set server_mods \<longrightarrow> map_of (disk w1) (local_dir @ [file]) = None) \<and>
         (yielded, disk w2) = download_files R jobs local_dir (disk w1)))"
proof (intro conjI impI)
  show "deletions_before_downloads (new_events w (snd (sync_dir R self remote_dir w)))"
    by (rule sync_dir_order)
  show "deletions_before_downloads
     (new_events w (snd (sync_dir_resolved R local_dir remote_dir_url w)))"
    by (rule sync_dir_resolved_order)
next
  assume run: "sync_dir_resolved R local_dir (Some u) w = (Inr yielded, w2)"
  obtain r1 w1 where rm: "remove_invalid_mods R local_dir u w = (r1, w1)"
    by (cases "remove_invalid_mods R local_dir u w")
  with run have r1: "r1 = Inr ()" and dl: "download_mods R local_dir u w1 = (Inr yielded, w2)"
    by (cases r1; simp add: sync_dir_resolved_def)+
  from rm r1 obtain sm where sm: "get_filenames R u = Some sm"
    by (cases "get_filenames R u") (auto simp: remove_invalid_mods_def Let_def)
  from dl obtain jobs where jobs: "get_file_downloads R u = Some jobs"
    by (cases "get_file_downloads R u") (auto simp: download_mods_None)
  let ?w0 = "emit (GetFilenames u) w"
  obtain r2 w3 where ls: "os_listdir local_dir ?w0 = (r2, w3)" by (cases "os_listdir local_dir ?w0")
  with rm r1 sm have r2: "r2 = Inr (dir_entries (disk w) local_dir)" and d3: "disk w3 = disk w"
    and loop: "remove_invalid sm local_dir (dir_entries (disk w) local_dir) w3 = (Inr (), w1)"
    by (auto simp: remove_invalid_mods_def os_listdir_def emit_def Let_def split: if_splits)
  have gone: "\<forall>file\<in>set (dir_entries (disk w) local_dir).
      file \<notin> set sm \<longrightarrow> map_of (disk w1) (local_dir @ [file]) = None"
    using remove_invalid_gone [OF loop] by blast
  have "(yielded, disk w2) = download_files R jobs local_dir (disk w1)"
    using dl download_mods_Some [OF jobs, of local_dir w1] by (auto simp: prod_eq_iff)
  with sm jobs rm r1 gone
  show "\<exists>server_mods jobs w1.
         get_filenames R u = Some server_mods \<and> get_file_downloads R u = Some jobs \<and>
         remove_invalid_mods R local_dir u w = (Inr (), w1) \<and>
         (\<forall>file\<in>set (dir_entries (disk w) local_dir).
            file \<notin> set server_mods \<longrightarrow> map_of (disk w1) (local_dir @ [file]) = None) \<and>
         (yielded, disk w2) = download_files R jobs local_dir (disk w1)"
    by blast
qed

theorem deletions_precede_downloads_witness:
  "deletions_before_downloads (new_events sample_world
     (snd (sync_dir_resolved sample_remote [''mcdata'', ''mods''] (Some ''https://srv/mods'')
        sample_world))) \<and>
   ''a.jar'' \<in> set (dir_entries (disk sample_world) [''mcdata'', ''mods'']) \<and>
   (\<exists>w1 yielded w2.
      remove_invalid_mods sample_remote [''mcdata'', ''mods''] ''https://srv/mods'' sample_world
        = (Inr (), w1) \<and>
      map_of (disk w1) [''mcdata'', ''mods'', ''a.jar''] = None \<and>
      download_mods sample_remote [''mcdata'', ''mods''] ''https://srv/mods'' w1 = (Inr yielded, w2) \<and>
      filter is_remove (new_events sample_world w1) = [Remove [''mcdata'', ''mods'', ''a.jar'']])"
proof -
  let ?ld = "[''mcdata'', ''mods'']" and ?u = "''https://srv/mods''"
  obtain yielded w2 where run:
    "sync_dir_resolved sample_remote ?ld (Some ?u) sample_world = (Inr yielded, w2)"
    by (simp add: run_defs sample_defs)
  have a: "''a.jar'' \<in> set (dir_entries (disk sample_world) ?ld)"
    by (simp add: dir_entries_def sample_world_def)
  have g: "get_filenames sample_remote ?u = Some [''b.jar'', ''c.jar'']"
    by (simp add: sample_remote_def)
  note inst = deletions_precede_downloads
    [of sample_world sample_remote sample_manager "''mods''" ?ld "Some ?u" ?u yielded w2]
  from inst run g obtain w1 where
    w1: "remove_invalid_mods sample_remote ?ld ?u sample_world = (Inr (), w1)"
    and gone: "\<forall>file\<in>set (dir_entries (disk sample_world) ?ld).
            file \<notin> set [''b.jar'', ''c.jar''] \<longrightarrow> map_of (disk w1) (?ld @ [file]) = None"
    by auto
  from gone a have "map_of (disk w1) [''mcdata'', ''mods'', ''a.jar''] = None" by auto
  moreover from run w1 have "download_mods sample_remote ?ld ?u w1 = (Inr yielded, w2)"
    by (simp add: sync_dir_resolved_def)
  moreover from w1 have "filter is_remove (new_events sample_world w1) = [Remove [''mcdata'', ''mods'', ''a.jar'']]"
    by (auto simp: run_defs sample_defs)
  ultimately show ?thesis using inst a w1 by blast
qed

section \<open>\<open>sync_file\<close>\<close>

text \<open>Path resolution of \<open>sync_file\<close>, case by case.\<close>

lemma create_file_path_unlisted:
  "remote_config self = Some cfg \<Longrightarrow> urls cfg = Some us \<Longrightarrow> us remote_file = None \<Longrightarrow>
   create_file_path self remote_file w = (Inl (ValueError ''Invalid remote file''), w)"
  by (simp add: create_file_path_def)

lemma create_file_path_listed:
  assumes "remote_config self = Some cfg" and "urls cfg = Some us"
    and "(remote_file, name) = (''options'', ''options.txt'')
         \<or> (remote_file, name) = (''servers'', ''servers.dat'')"
    and "us remote_file = Some remote_file_url"
  shows "create_file_path self remote_file w =
    (case makedirs (work_dir self) w of
       (Inl e, w1) \<Rightarrow> (Inl e, w1)
     | (Inr x, w1) \<Rightarrow> (Inr (work_dir self @ [name], remote_file_url), w1))"
  using assms by (auto simp: create_file_path_def split: prod.splits sum.splits)

lemma create_file_path_trace:
  "create_file_path self remote_file w = (Inr x, w1) \<Longrightarrow>
   trace w1 = trace w @ [Mkdir (butlast (fst x))]"
  by (auto simp: create_file_path_def makedirs_def emit_def Let_def
      split: option.splits if_splits prod.splits sum.splits)

text \<open>
  Lines 203 to 209: when the removal does not raise, the download starts from a disk
  without the local file.
\<close>

lemma replace_file_run:
  assumes "replace_file R server_file p w = (Inr x, w2)"
  shows "disk w2 = snd (download R server_file p (filter (\<lambda>e. fst e \<noteq> p) (disk w))) \<and>
         trace w2 = trace w @ Exists p
           # (if p = [] \<or> map_of (disk w) p \<noteq> None then [Remove p] else [])
           @ [Download server_file p]"
proof (cases "p = [] \<or> map_of (disk w) p \<noteq> None")
  case True
  let ?w1 = "emit (Exists p) w"
  obtain r w3 where rm: "os_remove p ?w1 = (r, w3)" by (cases "os_remove p ?w1")
  with assms True obtain y where r: "r = Inr y"
    by (cases r) (auto simp: replace_file_def os_path_exists_def)
  from os_remove_Inr [OF rm [unfolded r]]
  have w3: "disk w3 = filter (\<lambda>e. fst e \<noteq> p) (disk w)" "trace w3 = trace w @ [Exists p, Remove p]"
    by (simp_all add: emit_def)
  from assms True rm r
  have "w2 = (emit (Download server_file p) w3)
      \<lparr>disk := snd (download R server_file p (disk (emit (Download server_file p) w3)))\<rparr>"
    by (simp add: replace_file_def os_path_exists_def Let_def split: prod.splits)
  with w3 True show ?thesis by (simp add: emit_def)
next
  case False
  then have same: "filter (\<lambda>e. fst e \<noteq> p) (disk w) = disk w" by (simp add: filter_absent)
  from assms False
  have "w2 = (emit (Download server_file p) (emit (Exists p) w))
      \<lparr>disk := snd (download R server_file p
          (disk (emit (Download server_file p) (emit (Exists p) w))))\<rparr>"
    by (simp add: replace_file_def os_path_exists_def Let_def split: prod.splits)
  with same False show ?thesis by (simp add: emit_def)
qed

lemma replace_file_removable:
  assumes "p \<noteq> []"
    and "map_of (disk w) p = None \<or> map_of (disk w) p = Some (File content False)"
  shows "\<exists>w2. replace_file R server_file p w = (Inr (), w2)"
  using assms
  by (auto simp: replace_file_def os_path_exists_def os_remove_def emit_def Let_def
      split: prod.splits)

text \<open>
  Claim C7: when the manifest lacks a URL for the requested file, \<open>sync_file\<close> raises a
  configuration error and does not silently do nothing; the docstring of
  \<open>_create_file_path\<close> promises a \<open>ValueError\<close> when the URL is not set. The code does not
  raise: the sample manifest has \<open>None\<close> for \<open>servers\<close>, and \<open>sync_file\<close> returns normally
  after it has made sure of the working directory, with no call to the remote module.
\<close>

theorem sync_file_absent_url_returns:
  "sample_urls ''servers'' = Some None \<and>
   sync_file sample_remote sample_manager ''servers'' sample_world =
     (Inr (), \<lparr>disk = disk sample_world, trace = [Mkdir [''mcdata'']]\<rparr>)"
  by (simp add: sync_file_def create_file_path_def makedirs_def emit_def Let_def
      sample_manager_def sample_urls_def sample_world_def)

text \<open>
  The two ways in which a URL can be missing, for the names \<open>options\<close> and \<open>servers\<close>: when
  the \<open>urls\<close> mapping has no entry for the name, \<open>sync_file\<close> raises \<open>ValueError\<close> at once,
  the world untouched; when the entry is \<open>None\<close>, \<open>sync_file\<close> does what the creation of the
  working directory does and nothing else.
\<close>

lemma sync_file_missing_url:
  assumes "remote_config self = Some cfg" and "urls cfg = Some us"
    and "remote_file = ''options'' \<or> remote_file = ''servers''"
  shows "(us remote_file = None \<longrightarrow>
            sync_file R self remote_file w = (Inl (ValueError ''Invalid remote file''), w)) \<and>
         (us remote_file = Some None \<longrightarrow>
            sync_file R self remote_file w = makedirs (work_dir self) w)"
proof (intro conjI impI)
  assume "us remote_file = None"
  with assms show "sync_file R self remote_file w = (Inl (ValueError ''Invalid remote file''), w)"
    by (simp add: sync_file_def create_file_path_unlisted)
next
  assume none: "us remote_file = Some None"
  obtain name where "(remote_file, name) = (''options'', ''options.txt'')
         \<or> (remote_file, name) = (''servers'', ''servers.dat'')"
    using assms(3) by auto
  from create_file_path_listed [OF assms(1,2) this none]
  show "sync_file R self remote_file w = makedirs (work_dir self) w"
    by (cases "makedirs (work_dir self) w") (auto simp: sync_file_def split: sum.splits)
qed

text \<open>
  Claim C8 says that \<open>sync_file\<close> always fetches the file again and overwrites the local
  one. Line 205 does not guard \<open>os.remove\<close>: with \<open>options.txt\<close> locked, the removal
  raises \<open>PermissionError\<close>, \<open>remote.download\<close> is never called, and the file stays as it
  was.
\<close>

theorem sync_file_locked_file_not_fetched:
  "sample_urls ''options'' = Some (Some ''https://srv/options'') \<and>
   get_file_download sample_remote ''https://srv/options''
     = Some (''https://srv/options.txt'', ''options.txt'') \<and>
   sync_file sample_remote sample_manager ''options'' locked_options_world =
     (Inl (PermissionError [''mcdata'', ''options.txt'']),
      \<lparr>disk = disk locked_options_world,
       trace =
         [Mkdir [''mcdata''], GetFileDownload ''https://srv/options'',
          Exists [''mcdata'', ''options.txt''], Remove [''mcdata'', ''options.txt'']]\<rparr>)"
  by (simp add: sync_file_def create_file_path_def replace_file_def makedirs_def
      os_path_exists_def os_remove_def emit_def Let_def sample_defs locked_options_world_def)

text \<open>
  Claim C8, as the code has it, for \<open>options\<close> and \<open>servers\<close> with a URL and a remote
  record, once the working directory has been made sure of. When the local path is
  absent or holds a file that can be removed, of any content, \<open>sync_file\<close> returns
  normally, it has called \<open>remote.download\<close> exactly once, and the disk it leaves is the
  one that this download made from the disk without the local file: there is no
  comparison with what was there. When the local path holds something that cannot be
  removed, the exception of \<open>os.remove\<close> ends the run, \<open>remote.download\<close> is not called,
  and the disk stays as it was.
\<close>

theorem sync_file_fetches_unless_removal_fails:
  assumes "remote_config self = Some cfg" and "urls cfg = Some us"
    and "(remote_file, name) = (''options'', ''options.txt'')
         \<or> (remote_file, name) = (''servers'', ''servers.dat'')"
    and "us remote_file = Some (Some u)"
    and "get_file_download R u = Some server_file"
    and "makedirs (work_dir self) w = (Inr (), w1)"
    and "p = work_dir self @ [name]"
  shows "(map_of (disk w1) p = None \<or> map_of (disk w1) p = Some (File content False) \<longrightarrow>
           (\<exists>w2. sync_file R self remote_file w = (Inr (), w2) \<and>
              disk w2 = snd (download R server_file p (filter (\<lambda>e. fst e \<noteq> p) (disk w1))) \<and>
              filter is_download (new_events w w2) = [Download server_file p])) \<and>
         (map_of (disk w1) p \<noteq> None \<and> \<not> removable (disk w1) p \<longrightarrow>
           (\<exists>e. sync_file R self remote_file w =
              (Inl e,
               \<lparr>disk = disk w1,
                trace = trace w @ [Mkdir (work_dir self), GetFileDownload u, Exists p, Remove p]\<rparr>) \<and>
              (e = IsADirectoryError p \<or> e = PermissionError p)))"
proof -
  let ?w1 = "emit (GetFileDownload u) w1"
  have cf: "create_file_path self remote_file w = (Inr (p, Some u), w1)"
    using create_file_path_listed [OF assms(1-4), of w] assms(6,7) by simp
  have t1: "trace w1 = trace w @ [Mkdir (work_dir self)]"
    using makedirs_trace [OF assms(6)] .
  have ne: "p \<noteq> []" using assms(7) by simp
  have fetch: "map_of (disk w1) p = None \<or> map_of (disk w1) p = Some (File content False) \<longrightarrow>
           (\<exists>w2. sync_file R self remote_file w = (Inr (), w2) \<and>
              disk w2 = snd (download R server_file p (filter (\<lambda>e. fst e \<noteq> p) (disk w1))) \<and>
              filter is_download (new_events w w2) = [Download server_file p])"
  proof
    assume "map_of (disk w1) p = None \<or> map_of (disk w1) p = Some (File content False)"
    then have "map_of (disk ?w1) p = None \<or> map_of (disk ?w1) p = Some (File content False)"
      by (simp add: emit_def)
    with ne obtain w2 where rf: "replace_file R server_file p ?w1 = (Inr (), w2)"
      using replace_file_removable [of p ?w1 content R server_file] by auto
    with cf assms(5) have run: "sync_file R self remote_file w = (Inr (), w2)"
      by (simp add: sync_file_def Let_def)
    from replace_file_run [OF rf] t1 ne
    have d: "disk w2 = snd (download R server_file p (filter (\<lambda>e. fst e \<noteq> p) (disk w1)))"
      and t: "trace w2 = trace w @ ([Mkdir (work_dir self), GetFileDownload u, Exists p]
             @ (if map_of (disk w1) p \<noteq> None then [Remove p] else [])
             @ [Download server_file p])"
      by (simp_all add: emit_def)
    from new_events_append [OF t]
    have "filter is_download (new_events w w2) = [Download server_file p]" by simp
    with run d
    show "\<exists>w2. sync_file R self remote_file w = (Inr (), w2) \<and>
              disk w2 = snd (download R server_file p (filter (\<lambda>e. fst e \<noteq> p) (disk w1))) \<and>
              filter is_download (new_events w w2) = [Download server_file p]"
      by blast
  qed
  have abort: "map_of (disk w1) p \<noteq> None \<and> \<not> removable (disk w1) p \<longrightarrow>
           (\<exists>e. sync_file R self remote_file w =
              (Inl e,
               \<lparr>disk = disk w1,
                trace = trace w @ [Mkdir (work_dir self), GetFileDownload u, Exists p, Remove p]\<rparr>) \<and>
              (e = IsADirectoryError p \<or> e = PermissionError p))"
  proof
    assume a: "map_of (disk w1) p \<noteq> None \<and> \<not> removable (disk w1) p"
    let ?w2 = "emit (Exists p) ?w1"
    from a have "map_of (disk ?w2) p \<noteq> None" "\<not> removable (disk ?w2) p"
      by (simp_all add: emit_def)
    from os_remove_present_fails [OF this] obtain e where
      rm: "os_remove p ?w2 = (Inl e, emit (Remove p) ?w2)"
      and kind: "e = IsADirectoryError p \<or> e = PermissionError p"
      by blast
    from a rm have "replace_file R server_file p ?w1 = (Inl e, emit (Remove p) ?w2)"
      by (simp add: replace_file_def os_path_exists_def emit_def)
    with cf assms(5) have "sync_file R self remote_file w = (Inl e, emit (Remove p) ?w2)"
      by (simp add: sync_file_def Let_def)
    moreover have "emit (Remove p) ?w2 =
        \<lparr>disk = disk w1,
         trace = trace w @ [Mkdir (work_dir self), GetFileDownload u, Exists p, Remove p]\<rparr>"
      using t1 by (simp add: emit_def)
    ultimately
    show "\<exists>e. sync_file R self remote_file w =
              (Inl e,
               \<lparr>disk = disk w1,
                trace = trace w @ [Mkdir (work_dir self), GetFileDownload u, Exists p, Remove p]\<rparr>) \<and>
              (e = IsADirectoryError p \<or> e = PermissionError p)"
      using kind by auto
  qed
  from fetch abort show ?thesis by (rule conjI)
qed

theorem sync_file_fetches_unless_removal_fails_witness:
  "(\<exists>w2. sync_file sample_remote sample_manager ''options'' sample_world = (Inr (), w2) \<and>
      disk w2 = snd (download sample_remote (''https://srv/options.txt'', ''options.txt'')
                 [''mcdata'', ''options.txt'']
                 (filter (\<lambda>e. fst e \<noteq> [''mcdata'', ''options.txt'']) (disk sample_world))) \<and>
      filter is_download (new_events sample_world w2)
        = [Download (''https://srv/options.txt'', ''options.txt'') [''mcdata'', ''options.txt'']]) \<and>
   (\<exists>e. sync_file sample_remote sample_manager ''options'' locked_options_world =
      (Inl e,
       \<lparr>disk = disk locked_options_world,
        trace = [Mkdir [''mcdata''], GetFileDownload ''https://srv/options'',
                 Exists [''mcdata'', ''options.txt''], Remove [''mcdata'', ''options.txt'']]\<rparr>) \<and>
      (e = IsADirectoryError [''mcdata'', ''options.txt'']
         \<or> e = PermissionError [''mcdata'', ''options.txt'']))"
proof -
  let ?p = "[''mcdata'', ''options.txt'']"
  have 1: "remote_config sample_manager = Some \<lparr>urls = Some sample_urls\<rparr>"
    by (simp add: sample_manager_def)
  have 2: "urls \<lparr>urls = Some sample_urls\<rparr> = Some sample_urls" by simp
  have 3: "(''options'', ''options.txt'') = (''options'', ''options.txt'')
         \<or> (''options'', ''options.txt'') = (''servers'', ''servers.dat'')" by simp
  have 4: "sample_urls ''options'' = Some (Some ''https://srv/options'')"
    by (simp add: sample_urls_def)
  have 5: "get_file_download sample_remote ''https://srv/options''
      = Some (''https://srv/options.txt'', ''options.txt'')"
    by (simp add: sample_remote_def)
  have 7: "?p = work_dir sample_manager @ [''options.txt'']"
    by (simp add: sample_manager_def)
  have wd: "work_dir sample_manager = [''mcdata'']" by (simp add: sample_manager_def)
  have 6: "makedirs (work_dir sample_manager) sample_world
      = (Inr (), \<lparr>disk = disk sample_world, trace = [Mkdir [''mcdata'']]\<rparr>)"
    by (simp add: makedirs_def emit_def Let_def sample_world_def sample_manager_def)
  have m6: "makedirs (work_dir sample_manager) locked_options_world
      = (Inr (), \<lparr>disk = disk locked_options_world, trace = [Mkdir [''mcdata'']]\<rparr>)"
    by (simp add: makedirs_def emit_def Let_def locked_options_world_def sample_manager_def)
  have free: "map_of (disk \<lparr>disk = disk sample_world, trace = [Mkdir [''mcdata'']]\<rparr>) ?p = None
       \<or> map_of (disk \<lparr>disk = disk sample_world, trace = [Mkdir [''mcdata'']]\<rparr>) ?p
           = Some (File ''old options'' False)"
    by (simp add: sample_world_def)
  have locked: "map_of (disk \<lparr>disk = disk locked_options_world, trace = [Mkdir [''mcdata'']]\<rparr>) ?p
         \<noteq> None
       \<and> \<not> removable (disk \<lparr>disk = disk locked_options_world, trace = [Mkdir [''mcdata'']]\<rparr>) ?p"
    by (simp add: locked_options_world_def removable_def)
  have t: "trace locked_options_world = []" by (simp add: locked_options_world_def)
  from mp [OF conjunct1 [OF sync_file_fetches_unless_removal_fails [OF 1 2 3 4 5 6 7]] free]
  have a: "\<exists>w2. sync_file sample_remote sample_manager ''options'' sample_world = (Inr (), w2) \<and>
      disk w2 = snd (download sample_remote (''https://srv/options.txt'', ''options.txt'') ?p
                 (filter (\<lambda>e. fst e \<noteq> ?p) (disk sample_world))) \<and>
      filter is_download (new_events sample_world w2)
        = [Download (''https://srv/options.txt'', ''options.txt'') ?p]"
    by simp
  from mp [OF conjunct2 [OF sync_file_fetches_unless_removal_fails [OF 1 2 3 4 5 m6 7]] locked]
  have b: "\<exists>e. sync_file sample_remote sample_manager ''options'' locked_options_world =
      (Inl e,
       \<lparr>disk = disk locked_options_world,
        trace = [Mkdir [''mcdata''], GetFileDownload ''https://srv/options'',
                 Exists ?p, Remove ?p]\<rparr>) \<and>
      (e = IsADirectoryError ?p \<or> e = PermissionError ?p)"
    unfolding wd t by simp
  from a b show ?thesis by blast
qed

text \<open>The sample run, and the same run once more: the second fetches again.\<close>

lemma sample_options_run:
  "sync_file sample_remote sample_manager ''options'' sample_world =
     (Inr (),
      \<lparr>disk =
         [([''mcdata''], Dir),
          ([''mcdata'', ''mods''], Dir),
          ([''mcdata'', ''mods'', ''a.jar''], File ''old a'' False),
          ([''mcdata'', ''mods'', ''b.jar''], File ''old b'' False),
          ([''mcdata'', ''resourcepacks''], Dir),
          ([''mcdata'', ''shaderpacks''], Dir),
          ([''mcdata'', ''shaderpacks'', ''old.zip''], File ''old shader'' False),
          ([''mcdata'', ''options.txt''], File ''https://srv/options.txt'' False)],
       trace =
         [Mkdir [''mcdata''], GetFileDownload ''https://srv/options'',
          Exists [''mcdata'', ''options.txt''], Remove [''mcdata'', ''options.txt''],
          Download (''https://srv/options.txt'', ''options.txt'') [''mcdata'', ''options.txt'']]\<rparr>)"
  by (simp add: sync_file_def create_file_path_def replace_file_def makedirs_def
      os_path_exists_def os_remove_def emit_def Let_def sample_defs)

lemma sample_options_rerun:
  "filter is_download (trace (snd (sync_file sample_remote sample_manager ''options''
     (snd (sync_file sample_remote sample_manager ''options'' sample_world))))) =
   [Download (''https://srv/options.txt'', ''options.txt'') [''mcdata'', ''options.txt''],
    Download (''https://srv/options.txt'', ''options.txt'') [''mcdata'', ''options.txt'']]"
  by (simp add: sample_options_run)
    (simp add: sync_file_def create_file_path_def replace_file_def makedirs_def
      os_path_exists_def os_remove_def emit_def Let_def sample_remote_def sample_manager_def
      sample_urls_def write_file_def)

text \<open>
  Claim C10: in every run of \<open>sync_file\<close> that reaches the transfer, the local copy is
  removed before the download is tried, so the operation is not atomic: the download
  starts from a disk that has nothing at the local path, and when it fails and writes
  nothing, nothing is at the local path afterwards.
\<close>

theorem sync_file_removes_before_download:
  assumes "create_file_path self remote_file w = (Inr (local_filepath, Some u), w1)"
    and "get_file_download R u = Some server_file"
    and "sync_file R self remote_file w = (Inr (), w2)"
  shows "\<exists>d. d = filter (\<lambda>e. fst e \<noteq> local_filepath) (disk w1) \<and>
           map_of d local_filepath = None \<and>
           disk w2 = snd (download R server_file local_filepath d) \<and>
           new_events w w2 = [Mkdir (butlast local_filepath), GetFileDownload u, Exists local_filepath]
             @ (if local_filepath = [] \<or> map_of (disk w1) local_filepath \<noteq> None
                then [Remove local_filepath] else [])
             @ [Download server_file local_filepath] \<and>
           (download R server_file local_filepath d = (False, d) \<longrightarrow>
              map_of (disk w2) local_filepath = None)"
proof -
  let ?p = "local_filepath"
  let ?w1 = "emit (GetFileDownload u) w1"
  let ?d = "filter (\<lambda>e. fst e \<noteq> ?p) (disk w1)"
  from assms have rf: "replace_file R server_file ?p ?w1 = (Inr (), w2)"
    by (simp add: sync_file_def Let_def)
  from replace_file_run [OF rf] create_file_path_trace [OF assms(1)]
  have d: "disk w2 = snd (download R server_file ?p ?d)"
    and t: "trace w2 = trace w @ ([Mkdir (butlast ?p), GetFileDownload u, Exists ?p]
           @ (if ?p = [] \<or> map_of (disk w1) ?p \<noteq> None then [Remove ?p] else [])
           @ [Download server_file ?p])"
    by (simp_all add: emit_def)
  have gone: "map_of ?d ?p = None" by (simp add: map_of_filter_neq)
  have "download R server_file ?p ?d = (False, ?d) \<longrightarrow> map_of (disk w2) ?p = None"
    using d gone by simp
  with d gone new_events_append [OF t] show ?thesis by blast
qed

text \<open>
  With the server whose downloads fail: the run ends normally, and \<open>options.txt\<close>, which
  was there before, is gone.
\<close>

lemma failing_options_run:
  "sync_file failing_remote sample_manager ''options'' sample_world =
     (Inr (),
      \<lparr>disk = filter (\<lambda>e. fst e \<noteq> [''mcdata'', ''options.txt'']) (disk sample_world),
       trace =
         [Mkdir [''mcdata''], GetFileDownload ''https://srv/options'',
          Exists [''mcdata'', ''options.txt''], Remove [''mcdata'', ''options.txt''],
          Download (''https://srv/options.txt'', ''options.txt'') [''mcdata'', ''options.txt'']]\<rparr>)"
  by (simp add: sync_file_def create_file_path_def replace_file_def makedirs_def
      os_path_exists_def os_remove_def emit_def Let_def failing_remote_def sample_defs)

theorem sync_file_removes_before_download_witness:
  "map_of (disk sample_world) [''mcdata'', ''options.txt''] = Some (File ''old options'' False) \<and>
   fst (sync_file failing_remote sample_manager ''options'' sample_world) = Inr () \<and>
   map_of (disk (snd (sync_file failing_remote sample_manager ''options'' sample_world)))
     [''mcdata'', ''options.txt''] = None"
proof -
  let ?w1 = "\<lparr>disk = disk sample_world, trace = [Mkdir [''mcdata'']]\<rparr>"
  let ?p = "[''mcdata'', ''options.txt'']"
  let ?job = "(''https://srv/options.txt'', ''options.txt'')"
  have 1: "create_file_path sample_manager ''options'' sample_world
      = (Inr (?p, Some ''https://srv/options''), ?w1)"
    by (simp add: create_file_path_def makedirs_def emit_def Let_def sample_manager_def
        sample_urls_def sample_world_def)
  have 2: "get_file_download failing_remote ''https://srv/options'' = Some ?job"
    by (simp add: failing_remote_def sample_remote_def)
  obtain w2 where 3: "sync_file failing_remote sample_manager ''options'' sample_world = (Inr (), w2)"
    using failing_options_run by blast
  have fails: "download failing_remote ?job ?p (filter (\<lambda>e. fst e \<noteq> ?p) (disk ?w1))
      = (False, filter (\<lambda>e. fst e \<noteq> ?p) (disk ?w1))"
    by (simp add: failing_remote_def)
  have before: "map_of (disk sample_world) ?p = Some (File ''old options'' False)"
    by (simp add: sample_world_def)
  from sync_file_removes_before_download [OF 1 2 3] fails
  have "map_of (disk w2) ?p = None" by blast
  with 3 before show ?thesis by simp
qed

end
